theory Spec2Isabelle
  imports Complex_Main
begin

section \<open>Data model\<close>

text \<open>
  Exceptions of the Python code are values of \<open>error\<close>; a function that can raise returns
  \<open>error + 'a\<close>. Floating-point numbers are idealised as exact reals; a missing value
  (NaN or a masked entry) is \<open>None\<close>. A dataset is its row index and its columns by name,
  numeric or not; \<open>wf_df\<close> says that the names are distinct and that every column has one
  value per row. The optional printing of the detectors (\<open>print_\<close>) has no effect on what
  they return and is left out.
\<close>

datatype error = AssertionError | ZeroDivisionError | ValueError | IndexError | KeyError
  | ModelFitError

datatype column = NumCol "real list" | ObjCol "string list"

record dataframe =
  df_index :: "int list"
  df_columns :: "(string \<times> column) list"

text \<open>An outlier mask: the row index of the input and one column of cells per numeric column;
  a cell is \<open>Some b\<close> for the boolean \<open>b\<close> and \<open>None\<close> for a null (NaN) entry.\<close>

record mask_frame =
  m_index :: "int list"
  m_columns :: "(string \<times> bool option list) list"

fun col_length :: "column \<Rightarrow> nat" where
  "col_length (NumCol xs) = length xs"
| "col_length (ObjCol xs) = length xs"

definition wf_df :: "dataframe \<Rightarrow> bool" where
  "wf_df df = (distinct (map fst (df_columns df)) \<and>
     list_all (\<lambda>(c, col). col_length col = length (df_index df)) (df_columns df))"

text \<open>\<open>df.select_dtypes(include=np.number).columns\<close>\<close>

fun is_numeric :: "column \<Rightarrow> bool" where
  "is_numeric (NumCol xs) = True"
| "is_numeric (ObjCol xs) = False"

definition numeric_cols :: "dataframe \<Rightarrow> string list" where
  "numeric_cols df = map fst (filter (\<lambda>(c, col). is_numeric col) (df_columns df))"

text \<open>\<open>df[col].values\<close> for a numeric column \<open>col\<close>\<close>

definition col_values :: "dataframe \<Rightarrow> string \<Rightarrow> real list" where
  "col_values df c = (case map_of (df_columns df) c of Some (NumCol xs) \<Rightarrow> xs | _ \<Rightarrow> [])"

text \<open>\<open>pd.DataFrame(columns=numeric_cols, index=df.index)\<close>: every cell null.\<close>

definition empty_masks :: "dataframe \<Rightarrow> mask_frame" where
  "empty_masks df = \<lparr>m_index = df_index df,
     m_columns = map (\<lambda>c. (c, replicate (length (df_index df)) None)) (numeric_cols df)\<rparr>"

text \<open>\<open>outlier_masks[col] = outlier_mask\<close> for an existing column \<open>col\<close>\<close>

definition set_column :: "mask_frame \<Rightarrow> string \<Rightarrow> bool option list \<Rightarrow> mask_frame" where
  "set_column m c v = m\<lparr>m_columns := map (\<lambda>(k, old). if k = c then (k, v) else (k, old)) (m_columns m)\<rparr>"

definition mask_col :: "mask_frame \<Rightarrow> string \<Rightarrow> bool option list option" where
  "mask_col m c = map_of (m_columns m) c"

section \<open>Standard deviation and interquartile range detectors\<close>

text \<open>\<open>ts.mean()\<close> and \<open>ts.std()\<close> of a numpy array: the population standard deviation
  \<open>sqrt(mean(abs(x - x.mean())**2))\<close>.\<close>

definition np_mean :: "real list \<Rightarrow> real" where
  "np_mean xs = sum_list xs / real (length xs)"

definition np_std :: "real list \<Rightarrow> real" where
  "np_std xs = sqrt (np_mean (map (\<lambda>x. \<bar>x - np_mean xs\<bar> ^ 2) xs))"

text \<open>The body of the loop of \<open>detect_outlier_sd\<close> for one column.\<close>

definition sd_outlier_mask :: "real list \<Rightarrow> real \<Rightarrow> bool list" where
  "sd_outlier_mask ts sd_multiple =
     (let mean = np_mean ts;
          std = np_std ts;
          higher_bound = mean + sd_multiple * std;
          lower_bound = mean - sd_multiple * std
      in map (\<lambda>x. x > higher_bound \<or> x < lower_bound) ts)"

definition detect_outlier_sd :: "dataframe \<Rightarrow> real \<Rightarrow> mask_frame" where
  "detect_outlier_sd df sd_multiple =
     fold (\<lambda>col outlier_masks.
             set_column outlier_masks col (map Some (sd_outlier_mask (col_values df col) sd_multiple)))
          (numeric_cols df) (empty_masks df)"

text \<open>\<open>np.quantile(ts, q)\<close> with the default linear interpolation: the virtual index
  \<open>q * (n - 1)\<close> in the sorted array, interpolating between its two neighbours. On an
  empty array current numpy raises an \<open>IndexError\<close> (older versions returned NaN); no
  property below depends on that case.\<close>

definition np_quantile :: "real list \<Rightarrow> real \<Rightarrow> error + real" where
  "np_quantile ts q =
     (if ts = [] then Inl IndexError
      else let s = sort ts;
               n = length ts;
               virtual_index = q * real (n - 1);
               previous_index = nat \<lfloor>virtual_index\<rfloor>;
               next_index = min (previous_index + 1) (n - 1);
               gamma = virtual_index - real previous_index
           in Inr (s ! previous_index + (s ! next_index - s ! previous_index) * gamma))"

definition iqr_outlier_mask :: "real list \<Rightarrow> real \<Rightarrow> error + bool list" where
  "iqr_outlier_mask ts iqr_multiple =
     (case np_quantile ts (1/4) of Inl e \<Rightarrow> Inl e | Inr q1 \<Rightarrow>
      case np_quantile ts (1/2) of Inl e \<Rightarrow> Inl e | Inr q2 \<Rightarrow>
      case np_quantile ts (3/4) of Inl e \<Rightarrow> Inl e | Inr q3 \<Rightarrow>
        let iqr = q3 - q1;
            higher_bound = q3 + iqr_multiple * iqr;
            lower_bound = q1 - iqr_multiple * iqr
        in Inr (map (\<lambda>x. x > higher_bound \<or> x < lower_bound) ts))"

fun iqr_loop :: "dataframe \<Rightarrow> real \<Rightarrow> string list \<Rightarrow> mask_frame \<Rightarrow> error + mask_frame" where
  "iqr_loop df iqr_multiple [] outlier_masks = Inr outlier_masks"
| "iqr_loop df iqr_multiple (col # cols) outlier_masks =
     (case iqr_outlier_mask (col_values df col) iqr_multiple of
        Inl e \<Rightarrow> Inl e
      | Inr outlier_mask \<Rightarrow>
          iqr_loop df iqr_multiple cols (set_column outlier_masks col (map Some outlier_mask)))"

definition detect_outlier_iqr :: "dataframe \<Rightarrow> real \<Rightarrow> error + mask_frame" where
  "detect_outlier_iqr df iqr_multiple = iqr_loop df iqr_multiple (numeric_cols df) (empty_masks df)"

section \<open>Generalized ESD\<close>

subsection \<open>Masked arrays\<close>

text \<open>
  A numpy masked array is a list of optional values: \<open>None\<close> is a masked entry. Its
  reductions (\<open>count\<close>, \<open>sum\<close>, \<open>mean\<close>, \<open>var\<close>, \<open>std\<close>) run over the unmasked entries
  and are themselves masked when there is none; \<open>var\<close> is
  \<open>sum((x - mean)**2) / count\<close> (\<open>ddof = 0\<close>) and \<open>std\<close> its square root.
\<close>

type_synonym masked_array = "real option list"

definition ma_count :: "masked_array \<Rightarrow> nat" where
  "ma_count ts = length (filter (\<lambda>x. x \<noteq> None) ts)"

definition ma_sum :: "masked_array \<Rightarrow> real" where
  "ma_sum ts = sum_list (map (\<lambda>x. case x of None \<Rightarrow> 0 | Some v \<Rightarrow> v) ts)"

definition ma_mean :: "masked_array \<Rightarrow> real option" where
  "ma_mean ts = (if ma_count ts = 0 then None else Some (ma_sum ts / real (ma_count ts)))"

text \<open>Elementwise arithmetic with a scalar that may itself be masked. Division masks the
  result where the divisor is zero (the domain check of \<open>numpy.ma.true_divide\<close>).\<close>

definition ma_sub :: "masked_array \<Rightarrow> real option \<Rightarrow> masked_array" where
  "ma_sub ts c = map (\<lambda>x. case (x, c) of (Some v, Some m) \<Rightarrow> Some (v - m) | _ \<Rightarrow> None) ts"

definition ma_div :: "masked_array \<Rightarrow> real option \<Rightarrow> masked_array" where
  "ma_div ts c = map (\<lambda>x. case (x, c) of
                          (Some v, Some d) \<Rightarrow> if d = 0 then None else Some (v / d)
                        | _ \<Rightarrow> None) ts"

definition ma_abs :: "masked_array \<Rightarrow> masked_array" where
  "ma_abs ts = map (map_option abs) ts"

definition ma_square :: "masked_array \<Rightarrow> masked_array" where
  "ma_square ts = map (map_option (\<lambda>v. v * v)) ts"

definition ma_var :: "masked_array \<Rightarrow> real option" where
  "ma_var ts =
     (case ma_mean ts of
        None \<Rightarrow> None
      | Some m \<Rightarrow> Some (ma_sum (ma_square (ma_sub ts (Some m))) / real (ma_count ts)))"

definition ma_std :: "masked_array \<Rightarrow> real option" where
  "ma_std ts = map_option sqrt (ma_var ts)"

text \<open>\<open>np.ma.median\<close>: the median of the unmasked entries, masked when there is none.\<close>

definition ma_compressed :: "masked_array \<Rightarrow> real list" where
  "ma_compressed ts = List.map_filter (\<lambda>x. x) ts"

definition ma_median :: "masked_array \<Rightarrow> real option" where
  "ma_median ts =
     (let asorted = sort (ma_compressed ts);
          cnt = length asorted
      in if cnt = 0 then None
         else if odd cnt then Some (asorted ! (cnt div 2))
         else Some ((asorted ! (cnt div 2 - 1) + asorted ! (cnt div 2)) / 2))"

text \<open>\<open>np.argmax\<close> of a masked array fills the masked entries with the least value of the
  type and returns the first index of the maximum; on an empty array it raises
  \<open>ValueError\<close>.\<close>

definition ma_less :: "real option \<Rightarrow> real option \<Rightarrow> bool" where
  "ma_less a b = (case b of None \<Rightarrow> False | Some y \<Rightarrow> (case a of None \<Rightarrow> True | Some x \<Rightarrow> x < y))"

fun argmax_from :: "masked_array \<Rightarrow> nat \<Rightarrow> nat \<Rightarrow> real option \<Rightarrow> nat" where
  "argmax_from [] i best_idx best = best_idx"
| "argmax_from (s # ss) i best_idx best =
     (if ma_less best s then argmax_from ss (Suc i) i s
      else argmax_from ss (Suc i) best_idx best)"

definition ma_argmax :: "masked_array \<Rightarrow> error + nat" where
  "ma_argmax scores =
     (case scores of [] \<Rightarrow> Inl ValueError | s # ss \<Rightarrow> Inr (argmax_from ss 1 0 s))"

subsection \<open>Test statistic and critical value\<close>

definition calculate_test_statistic :: "masked_array \<Rightarrow> bool \<Rightarrow> error + nat \<times> real option" where
  "calculate_test_statistic ts hybrid =
     (let scores =
            (if hybrid then
               (let median = ma_median ts;
                    mad = ma_median (ma_abs (ma_sub ts median))
                in ma_abs (ma_div (ma_sub ts median) mad))
             else ma_abs (ma_div (ma_sub ts (ma_mean ts)) (ma_std ts)))
      in case ma_argmax scores of
           Inl e \<Rightarrow> Inl e
         | Inr max_idx \<Rightarrow> Inr (max_idx, scores ! max_idx))"

text \<open>
  A floating-point result that need not be finite. The quantile function of Student's t
  distribution (\<open>scipy.stats.t.ppf\<close>) is not part of the repository: it is the parameter
  \<open>t_ppf\<close>, whose value \<open>None\<close> stands for a result that is not a finite number (scipy
  returns NaN outside the domain and an infinity at probability 0 or 1); every such result
  turns the critical value into NaN. \<open>alpha\<close> is a Python float, so \<open>alpha / (2 * size)\<close>
  raises \<open>ZeroDivisionError\<close> for \<open>size = 0\<close>; the later divisions are numpy's and give
  an infinity or NaN instead.
\<close>

datatype npfloat = Fin real | PosInf | NegInf | NaN

definition calculate_critical_value ::
    "(real \<Rightarrow> real \<Rightarrow> real option) \<Rightarrow> int \<Rightarrow> real \<Rightarrow> error + npfloat" where
  "calculate_critical_value t_ppf size_n alpha =
     (if size_n = 0 then Inl ZeroDivisionError
      else case t_ppf (1 - alpha / (2 * real_of_int size_n)) (real_of_int (size_n - 2)) of
             None \<Rightarrow> Inr NaN
           | Some t_dist \<Rightarrow>
               let numerator = real_of_int (size_n - 1) * t_dist;
                   radicand = real_of_int (size_n ^ 2 - size_n * 2) + real_of_int size_n * t_dist ^ 2
               in if radicand < 0 then Inr NaN
                  else if radicand = 0 then
                    Inr (if numerator > 0 then PosInf else if numerator < 0 then NegInf else NaN)
                  else Inr (Fin (numerator / sqrt radicand)))"

text \<open>\<open>test_val > critical_val\<close> as the condition of an \<open>if\<close>: a masked statistic and a
  NaN critical value both make it false.\<close>

fun exceeds :: "real option \<Rightarrow> npfloat \<Rightarrow> bool" where
  "exceeds None c = False"
| "exceeds (Some v) (Fin c) = (v > c)"
| "exceeds (Some v) PosInf = False"
| "exceeds (Some v) NegInf = True"
| "exceeds (Some v) NaN = False"

subsection \<open>The detection loop\<close>

record esd_state =
  esd_ts :: masked_array
  test_statistics :: "nat list"
  num_outliers :: nat

text \<open>One pass through the body of \<open>for curr in range(max_anomalies)\<close>. The loop runs
  over \<open>[0..<max_anomalies]\<close>; \<open>max_anomalies\<close> is a natural number, since a negative
  value gives the same empty range as 0. The size passed to the critical value is
  \<open>len(ts) - curr\<close>, where \<open>len(ts)\<close> counts the masked entries as well.\<close>

definition esd_step ::
    "(real \<Rightarrow> real \<Rightarrow> real option) \<Rightarrow> real \<Rightarrow> bool \<Rightarrow> nat \<Rightarrow> esd_state \<Rightarrow> error + esd_state" where
  "esd_step t_ppf alpha hybrid curr_i st =
     (case calculate_test_statistic (esd_ts st) hybrid of
        Inl e \<Rightarrow> Inl e
      | Inr (test_idx, test_val) \<Rightarrow>
          (case calculate_critical_value t_ppf (int (length (esd_ts st)) - int curr_i) alpha of
             Inl e \<Rightarrow> Inl e
           | Inr critical_val \<Rightarrow>
               Inr \<lparr>esd_ts = (esd_ts st)[test_idx := None],
                    test_statistics = test_statistics st @ [test_idx],
                    num_outliers = (if exceeds test_val critical_val then curr_i
                                    else num_outliers st)\<rparr>))"

fun esd_loop ::
    "(real \<Rightarrow> real \<Rightarrow> real option) \<Rightarrow> real \<Rightarrow> bool \<Rightarrow> nat list \<Rightarrow> esd_state \<Rightarrow> error + esd_state" where
  "esd_loop t_ppf alpha hybrid [] st = Inr st"
| "esd_loop t_ppf alpha hybrid (curr_i # rest) st =
     (case esd_step t_ppf alpha hybrid curr_i st of
        Inl e \<Rightarrow> Inl e
      | Inr st' \<Rightarrow> esd_loop t_ppf alpha hybrid rest st')"

definition esd_init :: "real list \<Rightarrow> esd_state" where
  "esd_init col = \<lparr>esd_ts = map Some col, test_statistics = [], num_outliers = 0\<rparr>"

text \<open>
  After the loop: \<open>np.zeros_like(ts)\<close> is a masked array with the mask of \<open>ts\<close>, the
  assignment at \<open>anomalous_indices\<close> unmasks those entries, \<open>astype(bool)\<close> keeps the mask,
  and storing the masked array in the result frame turns each masked entry into a null.
\<close>

definition anomalous_indices :: "esd_state \<Rightarrow> nat list" where
  "anomalous_indices st =
     (if num_outliers st > 0 then take (num_outliers st + 1) (test_statistics st) else [])"

definition esd_mask_of :: "esd_state \<Rightarrow> bool option list" where
  "esd_mask_of st =
     fold (\<lambda>i outlier_mask. outlier_mask[i := Some True]) (anomalous_indices st)
          (map (map_option (\<lambda>v. False)) (esd_ts st))"

definition esd_outlier_mask ::
    "(real \<Rightarrow> real \<Rightarrow> real option) \<Rightarrow> real list \<Rightarrow> nat \<Rightarrow> real \<Rightarrow> bool \<Rightarrow> error + bool option list" where
  "esd_outlier_mask t_ppf col max_anomalies alpha hybrid =
     (case esd_loop t_ppf alpha hybrid [0..<max_anomalies] (esd_init col) of
        Inl e \<Rightarrow> Inl e
      | Inr st \<Rightarrow> Inr (esd_mask_of st))"

fun esd_columns ::
    "(real \<Rightarrow> real \<Rightarrow> real option) \<Rightarrow> dataframe \<Rightarrow> nat \<Rightarrow> real \<Rightarrow> bool \<Rightarrow> string list \<Rightarrow> mask_frame
      \<Rightarrow> error + mask_frame" where
  "esd_columns t_ppf df max_anomalies alpha hybrid [] outlier_masks = Inr outlier_masks"
| "esd_columns t_ppf df max_anomalies alpha hybrid (col # cols) outlier_masks =
     (case esd_outlier_mask t_ppf (col_values df col) max_anomalies alpha hybrid of
        Inl e \<Rightarrow> Inl e
      | Inr outlier_mask \<Rightarrow>
          esd_columns t_ppf df max_anomalies alpha hybrid cols
            (set_column outlier_masks col outlier_mask))"

definition detect_outlier_generalized_esd ::
    "(real \<Rightarrow> real \<Rightarrow> real option) \<Rightarrow> dataframe \<Rightarrow> nat \<Rightarrow> real \<Rightarrow> bool \<Rightarrow> error + mask_frame" where
  "detect_outlier_generalized_esd t_ppf df max_anomalies alpha hybrid =
     esd_columns t_ppf df max_anomalies alpha hybrid (numeric_cols df) (empty_masks df)"

section \<open>Isolation forest detectors\<close>

text \<open>
  The isolation forest model is not part of the repository. It is a parameter of the
  detectors: the univariate one takes \<open>fit_predict\<close>, which maps the keyword arguments the
  model is constructed with and the scaled column to the labels (\<open>1\<close> inlier, \<open>-1\<close>
  outlier), or to \<open>None\<close> when the model raises (reported as \<open>ModelFitError\<close>). With its
  seed fixed the model is deterministic, so a function is the right shape.
\<close>

datatype kwarg = KStr string | KNum real

type_synonym kwargs = "string \<rightharpoonup> kwarg"

text \<open>\<open>StandardScaler().fit_transform\<close> on one column: zero mean and unit variance, a zero
  standard deviation replaced by one; it rejects an empty array.\<close>

definition standard_scaler :: "real list \<Rightarrow> error + real list" where
  "standard_scaler ts =
     (if ts = [] then Inl ValueError
      else let mean = np_mean ts;
               scale = (if np_std ts = 0 then 1 else np_std ts)
           in Inr (map (\<lambda>x. (x - mean) / scale) ts))"

text \<open>\<open>pred = 1 - np.clip(pred, a_min=0, a_max=None)\<close>, then \<open>pred.astype(bool)\<close>\<close>

definition labels_to_mask :: "int list \<Rightarrow> bool list" where
  "labels_to_mask pred = map (\<lambda>p. 1 - max p 0 \<noteq> 0) pred"

fun iforest_columns ::
    "(kwargs \<Rightarrow> real list \<Rightarrow> int list option) \<Rightarrow> dataframe \<Rightarrow> kwarg \<Rightarrow> kwargs \<Rightarrow> string list \<Rightarrow> mask_frame
      \<Rightarrow> error + mask_frame" where
  "iforest_columns fit_predict df outlier_fraction kwargs [] outlier_masks = Inr outlier_masks"
| "iforest_columns fit_predict df outlier_fraction kwargs (col # cols) outlier_masks =
     (case standard_scaler (col_values df col) of
        Inl e \<Rightarrow> Inl e
      | Inr scaled_time_series \<Rightarrow>
          let kwargs1 = kwargs(''contamination'' \<mapsto> outlier_fraction);
              kwargs2 = kwargs1(''random_state'' \<mapsto> KNum 42)
          in (case fit_predict kwargs2 scaled_time_series of
                None \<Rightarrow> Inl ModelFitError
              | Some pred \<Rightarrow>
                  let outlier_mask = labels_to_mask pred
                  in if length outlier_mask \<noteq> length (m_index outlier_masks) then Inl ValueError
                     else iforest_columns fit_predict df outlier_fraction kwargs2 cols
                            (set_column outlier_masks col (map Some outlier_mask))))"

definition detect_outlier_isolation_forest ::
    "(kwargs \<Rightarrow> real list \<Rightarrow> int list option) \<Rightarrow> dataframe \<Rightarrow> kwarg \<Rightarrow> kwargs \<Rightarrow> error + mask_frame" where
  "detect_outlier_isolation_forest fit_predict df outlier_fraction kwargs =
     (case outlier_fraction of
        KStr s \<Rightarrow>
          if s = ''auto''
          then iforest_columns fit_predict df outlier_fraction kwargs (numeric_cols df) (empty_masks df)
          else Inl AssertionError
      | KNum x \<Rightarrow>
          if x \<ge> 0 \<and> x \<le> 1 / 2
          then iforest_columns fit_predict df outlier_fraction kwargs (numeric_cols df) (empty_masks df)
          else Inl AssertionError)"

text \<open>
  The multivariate detector fits one model on all numeric columns. \<open>iso_forest\<close> is the
  external model (constructed from \<open>n_estimators\<close>, \<open>contaminacion\<close> and \<open>random_state\<close>,
  fitted on the numeric columns and asked for their labels), \<open>render\<close> the scaling, PCA and
  plotting of the optional figure (it returns the exception it raises, if any), and
  \<open>fmt\<close> Python's formatting of a float inside the column name.
  \<open>value_counts()[-1]\<close> looks the label \<open>-1\<close> up among the labels that occur and raises
  \<open>KeyError\<close> when it does not occur.
\<close>

definition value_counts_at :: "int list \<Rightarrow> int \<Rightarrow> error + nat" where
  "value_counts_at labels l =
     (if l \<in> set labels then Inr (length (filter (\<lambda>x. x = l) labels)) else Inl KeyError)"

definition numeric_data :: "dataframe \<Rightarrow> real list list" where
  "numeric_data df = map (col_values df) (numeric_cols df)"

definition detect_outlier_multivariable_isolation_forest ::
    "(nat \<Rightarrow> real \<Rightarrow> int \<Rightarrow> real list list \<Rightarrow> int list option) \<Rightarrow> (real list list \<Rightarrow> int list \<Rightarrow> error option)
      \<Rightarrow> (real \<Rightarrow> string) \<Rightarrow> dataframe \<Rightarrow> real \<Rightarrow> nat \<Rightarrow> bool \<Rightarrow> int \<Rightarrow> error + mask_frame" where
  "detect_outlier_multivariable_isolation_forest iso_forest render fmt df contaminacion n_estimators
       plot random_state =
     (case iso_forest n_estimators contaminacion random_state (numeric_data df) of
        None \<Rightarrow> Inl ModelFitError
      | Some outliers \<Rightarrow>
          if length outliers \<noteq> length (df_index df) then Inl ValueError
          else (case value_counts_at outliers (- 1) of
                  Inl e \<Rightarrow> Inl e
                | Inr n_outliers \<Rightarrow>
                    (case (if plot then render (numeric_data df) outliers else None) of
                       Some e \<Rightarrow> Inl e
                     | None \<Rightarrow>
                         Inr \<lparr>m_index = df_index df,
                              m_columns = [(''MULTIVARIABLE_ISO_FOREST_'' @ fmt contaminacion,
                                            map (\<lambda>x. Some (x = - 1)) outliers)]\<rparr>)))"

section \<open>Summary\<close>

text \<open>
  \<open>mask.mean() * 100\<close> per column: pandas' mean skips null cells, so it is the share of
  \<open>True\<close> among the cells that are not null, and NaN (\<open>None\<close>) when there is no such cell.
  The \<open>INDEX\<close> entry holds the row keys whose cell equals \<open>True\<close>.
\<close>

definition column_mean :: "bool option list \<Rightarrow> real option" where
  "column_mean cells =
     (let present = List.map_filter (\<lambda>c. c) cells
      in if present = [] then None
         else Some (real (length (filter (\<lambda>b. b) present)) / real (length present)))"

definition percentage_outliers :: "mask_frame \<Rightarrow> string \<Rightarrow> real option" where
  "percentage_outliers m col =
     (case mask_col m col of None \<Rightarrow> None | Some cells \<Rightarrow> map_option (\<lambda>p. p * 100) (column_mean cells))"

definition flagged_index :: "mask_frame \<Rightarrow> string \<Rightarrow> int list" where
  "flagged_index m col =
     (case mask_col m col of
        None \<Rightarrow> []
      | Some cells \<Rightarrow> map fst (filter (\<lambda>(k, c). c = Some True) (zip (m_index m) cells)))"

datatype detector = IQR | STD | ISO_FOREST | GEN_ESD

record summary_entry =
  percentage :: "real option"
  index_keys :: "int list"

record esd_config =
  cfg_max_anomalies :: nat
  cfg_alpha :: real
  cfg_hybrid :: bool

definition summary_rows ::
    "mask_frame \<Rightarrow> mask_frame \<Rightarrow> mask_frame \<Rightarrow> mask_frame \<Rightarrow> string
      \<Rightarrow> ((string \<times> detector) \<times> summary_entry) list" where
  "summary_rows outliers_iqr outliers_sd outliers_isolation_forest outliers_generalized_esd col =
     [((col, IQR), \<lparr>percentage = percentage_outliers outliers_iqr col,
                     index_keys = flagged_index outliers_iqr col\<rparr>),
      ((col, STD), \<lparr>percentage = percentage_outliers outliers_sd col,
                     index_keys = flagged_index outliers_sd col\<rparr>),
      ((col, ISO_FOREST), \<lparr>percentage = percentage_outliers outliers_isolation_forest col,
                            index_keys = flagged_index outliers_isolation_forest col\<rparr>),
      ((col, GEN_ESD), \<lparr>percentage = percentage_outliers outliers_generalized_esd col,
                         index_keys = flagged_index outliers_generalized_esd col\<rparr>)]"

definition summary ::
    "(real \<Rightarrow> real \<Rightarrow> real option) \<Rightarrow> (kwargs \<Rightarrow> real list \<Rightarrow> int list option) \<Rightarrow> dataframe \<Rightarrow> real \<Rightarrow> real
      \<Rightarrow> kwarg \<Rightarrow> esd_config \<Rightarrow> error + ((string \<times> detector) \<times> summary_entry) list" where
  "summary t_ppf fit_predict df iqr_multiple sd_multiple isolation_outlier_fraction generalized_esd =
     (case detect_outlier_iqr df iqr_multiple of
        Inl e \<Rightarrow> Inl e
      | Inr outliers_iqr \<Rightarrow>
          let outliers_sd = detect_outlier_sd df sd_multiple
          in (case detect_outlier_isolation_forest fit_predict df isolation_outlier_fraction Map.empty of
                Inl e \<Rightarrow> Inl e
              | Inr outliers_isolation_forest \<Rightarrow>
                  (case detect_outlier_generalized_esd t_ppf df (cfg_max_anomalies generalized_esd)
                          (cfg_alpha generalized_esd) (cfg_hybrid generalized_esd) of
                     Inl e \<Rightarrow> Inl e
                   | Inr outliers_generalized_esd \<Rightarrow>
                       Inr (concat (map (summary_rows outliers_iqr outliers_sd
                                           outliers_isolation_forest outliers_generalized_esd)
                                        (numeric_cols df))))))"

section \<open>Notions of the specification\<close>

text \<open>
  The specification's words, to compare the code with: the population standard deviation
  (\<open>ddof = 0\<close>) of a list of values, the score \<open>|x - mean| / std\<close> of a value against a
  list, the values of a column that are still active once the positions in \<open>removed\<close> have
  been excluded, and the column as a working array with those positions masked.
\<close>

definition population_std :: "real list \<Rightarrow> real" where
  "population_std xs =
     sqrt ((\<Sum>x\<leftarrow>xs. (x - sum_list xs / real (length xs))\<^sup>2) / real (length xs))"

definition z_score :: "real list \<Rightarrow> real \<Rightarrow> real" where
  "z_score xs x = \<bar>x - sum_list xs / real (length xs)\<bar> / population_std xs"

definition active_values :: "real list \<Rightarrow> nat list \<Rightarrow> real list" where
  "active_values col removed =
     map (\<lambda>j. col ! j) (filter (\<lambda>j. j \<notin> set removed) [0..<length col])"

definition masked_at :: "real list \<Rightarrow> nat list \<Rightarrow> masked_array" where
  "masked_at col removed =
     map (\<lambda>j. if j \<in> set removed then None else Some (col ! j)) [0..<length col]"

text \<open>The outlier fractions the specification rejects: a string other than \<open>auto\<close>, or a
  number outside \<open>[0, 0.5]\<close>.\<close>

definition rejected_outlier_fraction :: "kwarg \<Rightarrow> bool" where
  "rejected_outlier_fraction outlier_fraction =
     (case outlier_fraction of KStr s \<Rightarrow> s \<noteq> ''auto'' | KNum x \<Rightarrow> x < 0 \<or> x > 1 / 2)"

section \<open>Example datasets and stand-ins for the external models\<close>

definition iqr_example :: dataframe where
  "iqr_example = \<lparr>df_index = [0, 1, 2, 3, 4], df_columns = [(''x'', NumCol [1, 2, 3, 4, 100])]\<rparr>"

definition constant_example :: dataframe where
  "constant_example = \<lparr>df_index = [0, 1, 2],
     df_columns = [(''x'', NumCol [5, 5, 5]), (''name'', ObjCol [''a'', ''b'', ''c''])]\<rparr>"

definition two_rows :: dataframe where
  "two_rows = \<lparr>df_index = [0, 1], df_columns = [(''x'', NumCol [1, 2])]\<rparr>"

definition three_rows :: dataframe where
  "three_rows = \<lparr>df_index = [0, 1, 2], df_columns = [(''x'', NumCol [1, 2, 3])]\<rparr>"

definition spike :: "real list" where
  "spike = [0, 0, 0, 0, 0, 0, 0, 0, 0, 10]"

definition spike_example :: dataframe where
  "spike_example = \<lparr>df_index = [0, 1, 2, 3, 4, 5, 6, 7, 8, 9], df_columns = [(''x'', NumCol spike)]\<rparr>"

definition two_spikes :: "real list" where
  "two_spikes = [0, 0, 0, 0, 0, 0, 0, 0, 0, 10, 100]"

definition two_spikes_example :: dataframe where
  "two_spikes_example = \<lparr>df_index = [0, 1, 2, 3, 4, 5, 6, 7, 8, 9, 10],
     df_columns = [(''x'', NumCol two_spikes)]\<rparr>"

text \<open>A stand-in for the external isolation forest that labels every row an inlier.\<close>

definition all_inliers :: "kwargs \<Rightarrow> real list \<Rightarrow> int list option" where
  "all_inliers kw xs = Some (map (\<lambda>x. 1) xs)"

text \<open>A stand-in for the external isolation forest that reads the seed it is constructed
  with: it flags the scaled values above \<open>random_state / 42\<close>. Two keyword-argument
  dictionaries of a caller follow.\<close>

definition seed_probe_forest :: "kwargs \<Rightarrow> real list \<Rightarrow> int list option" where
  "seed_probe_forest kw xs =
     (case kw ''random_state'' of
        Some (KNum s) \<Rightarrow> Some (map (\<lambda>x. if x > s / 42 then - 1 else 1) xs)
      | _ \<Rightarrow> None)"

definition caller_kwargs1 :: kwargs where
  "caller_kwargs1 = [''contamination'' \<mapsto> KNum (1 / 10), ''n_estimators'' \<mapsto> KNum 50]"

definition caller_kwargs2 :: kwargs where
  "caller_kwargs2 = [''random_state'' \<mapsto> KNum 7, ''n_estimators'' \<mapsto> KNum 50]"

text \<open>Stand-ins for the multivariate model (one that flags the last of three rows, one that
  flags none), for the plotting step and for the formatting of the contamination.\<close>

definition labels_with_outlier :: "nat \<Rightarrow> real \<Rightarrow> int \<Rightarrow> real list list \<Rightarrow> int list option" where
  "labels_with_outlier n_estimators contaminacion random_state X = Some [1, 1, - 1]"

definition labels_without_outlier :: "nat \<Rightarrow> real \<Rightarrow> int \<Rightarrow> real list list \<Rightarrow> int list option" where
  "labels_without_outlier n_estimators contaminacion random_state X = Some [1, 1, 1]"

definition no_render :: "real list list \<Rightarrow> int list \<Rightarrow> error option" where
  "no_render X labels = None"

definition fmt_percent :: "real \<Rightarrow> string" where
  "fmt_percent c = ''0.01''"

section \<open>Properties\<close>

subsection \<open>Result frames\<close>

lemma set_column_keys [simp]: "map fst (m_columns (set_column m c v)) = map fst (m_columns m)"
  by (simp add: set_column_def comp_def case_prod_unfold if_distrib cong: if_cong)

lemma set_column_index [simp]: "m_index (set_column m c v) = m_index m"
  by (simp add: set_column_def)

lemma map_of_replace_same:
  "c \<in> fst ` set xs \<Longrightarrow> map_of (map (\<lambda>(k, old). if k = c then (k, v) else (k, old)) xs) c = Some v"
  by (induction xs) auto

lemma map_of_replace_other:
  "c \<noteq> c' \<Longrightarrow> map_of (map (\<lambda>(k, old). if k = c' then (k, v) else (k, old)) xs) c = map_of xs c"
  by (induction xs) auto

lemma mask_col_set_column_same:
  "c \<in> set (map fst (m_columns m)) \<Longrightarrow> mask_col (set_column m c v) c = Some v"
  by (simp add: mask_col_def set_column_def map_of_replace_same)

lemma mask_col_set_column_other:
  "c \<noteq> c' \<Longrightarrow> mask_col (set_column m c' v) c = mask_col m c"
  by (simp add: mask_col_def set_column_def map_of_replace_other)

lemma fold_set_column_keys [simp]:
  "map fst (m_columns (fold (\<lambda>col m. set_column m col (f col)) cs m)) = map fst (m_columns m)"
  by (induction cs arbitrary: m) auto

lemma fold_set_column_index [simp]:
  "m_index (fold (\<lambda>col m. set_column m col (f col)) cs m) = m_index m"
  by (induction cs arbitrary: m) auto

lemma fold_set_column_other:
  "c \<notin> set cs \<Longrightarrow> mask_col (fold (\<lambda>col m. set_column m col (f col)) cs m) c = mask_col m c"
  by (induction cs arbitrary: m) (auto simp: mask_col_set_column_other)

lemma fold_set_column_same:
  "distinct cs \<Longrightarrow> c \<in> set cs \<Longrightarrow> c \<in> set (map fst (m_columns m)) \<Longrightarrow>
   mask_col (fold (\<lambda>col m. set_column m col (f col)) cs m) c = Some (f c)"
proof (induction cs arbitrary: m)
  case Nil
  then show ?case by simp
next
  case (Cons a cs)
  show ?case
  proof (cases "a = c")
    case True
    with Cons.prems have "c \<notin> set cs" by simp
    then show ?thesis
      using True Cons.prems(3) by (simp add: fold_set_column_other mask_col_set_column_same)
  next
    case False
    with Cons.prems have cs: "distinct cs" "c \<in> set cs" by auto
    have k: "c \<in> set (map fst (m_columns (set_column m a (f a))))"
      using Cons.prems(3) by (simp only: set_column_keys)
    show ?thesis using Cons.IH[OF cs k] by simp
  qed
qed

lemma numeric_cols_distinct: "wf_df df \<Longrightarrow> distinct (numeric_cols df)"
  by (simp add: wf_df_def numeric_cols_def distinct_map_filter)

lemma empty_masks_keys [simp]: "map fst (m_columns (empty_masks df)) = numeric_cols df"
  by (simp add: empty_masks_def comp_def)

lemma empty_masks_index [simp]: "m_index (empty_masks df) = df_index df"
  by (simp add: empty_masks_def)

lemma col_values_length:
  assumes "wf_df df" "c \<in> set (numeric_cols df)"
  shows "length (col_values df c) = length (df_index df)"
proof -
  from assms(2) obtain col where in_cols: "(c, col) \<in> set (df_columns df)" and num: "is_numeric col"
    by (auto simp: numeric_cols_def)
  from assms(1) have d: "distinct (map fst (df_columns df))" by (simp add: wf_df_def)
  from d in_cols have m: "map_of (df_columns df) c = Some col" by simp
  from assms(1) in_cols have "col_length col = length (df_index df)"
    by (auto simp: wf_df_def list_all_iff)
  with m num show ?thesis by (cases col) (simp_all add: col_values_def)
qed

subsection \<open>The standard deviation detector on a constant column\<close>

lemma np_std_zero_all_mean:
  assumes "np_std xs = 0" "x \<in> set xs"
  shows "x = np_mean xs"
proof -
  let ?sq = "map (\<lambda>x. \<bar>x - np_mean xs\<bar> ^ 2) xs"
  from assms(2) have ne: "xs \<noteq> []" by auto
  from assms(1) have "np_mean ?sq = 0" by (simp add: np_std_def)
  with ne have s0: "sum_list ?sq = 0" by (simp add: np_mean_def)
  have "\<forall>y \<in> set ?sq. y = 0"
    using s0 by (subst (asm) sum_list_nonneg_eq_0_iff) auto
  with assms(2) have "\<bar>x - np_mean xs\<bar> ^ 2 = 0" by auto
  then show ?thesis by simp
qed

lemma sd_outlier_mask_zero_std:
  assumes "np_std xs = 0"
  shows "sd_outlier_mask xs k = replicate (length xs) False"
proof -
  have "\<forall>x \<in> set xs. \<not> (x > np_mean xs \<or> x < np_mean xs)"
    using np_std_zero_all_mean[OF assms] by auto
  then have "map (\<lambda>x. x > np_mean xs \<or> x < np_mean xs) xs = replicate (length xs) False"
    by (simp add: map_replicate_const[symmetric] cong: map_cong)
  with assms show ?thesis by (simp add: sd_outlier_mask_def Let_def)
qed



subsection \<open>The interquartile range detector on a small dataset\<close>

text \<open>
  C6: on the single-column dataset \<open>[1, 2, 3, 4, 100]\<close> with \<open>iqr_multiple = 1.5\<close> the
  quartiles by linear interpolation are \<open>Q1 = 2\<close> and \<open>Q3 = 4\<close>, and the IQR detector
  returns the mask that is true at the row of \<open>100\<close> and false at the other four rows.
\<close>

theorem iqr_example_flags_only_100:
  "np_quantile [1, 2, 3, 4, 100] (1 / 4) = Inr 2 \<and>
   np_quantile [1, 2, 3, 4, 100] (3 / 4) = Inr 4 \<and>
   detect_outlier_iqr iqr_example (3 / 2) =
     Inr \<lparr>m_index = [0, 1, 2, 3, 4],
          m_columns = [(''x'', [Some False, Some False, Some False, Some False, Some True])]\<rparr>"
  by (simp add: detect_outlier_iqr_def iqr_example_def numeric_cols_def empty_masks_def
      col_values_def set_column_def iqr_outlier_mask_def np_quantile_def Let_def)

subsection \<open>Generalized ESD: when the loop fails\<close>

lemma argmax_from_bound:
  "best_idx < i \<Longrightarrow> argmax_from ss i best_idx best < i + length ss"
  by (induction ss i best_idx best rule: argmax_from.induct) auto

lemma ma_argmax_bound:
  "scores \<noteq> [] \<Longrightarrow> \<exists>i. ma_argmax scores = Inr i \<and> i < length scores"
  using argmax_from_bound[of 0 1] by (cases scores) (auto simp: ma_argmax_def)

lemma ma_argmax_empty [simp]: "ma_argmax [] = Inl ValueError"
  by (simp add: ma_argmax_def)

lemma ma_lengths [simp]:
  "length (ma_sub xs c) = length xs" "length (ma_div xs c) = length xs"
  "length (ma_abs xs) = length xs" "length (ma_square xs) = length xs"
  by (simp_all add: ma_sub_def ma_div_def ma_abs_def ma_square_def)

lemma calculate_test_statistic_ok:
  assumes "xs \<noteq> []"
  shows "\<exists>i v. calculate_test_statistic xs hybrid = Inr (i, v) \<and> i < length xs"
proof -
  define scores where "scores =
            (if hybrid then
               (let median = ma_median xs;
                    mad = ma_median (ma_abs (ma_sub xs median))
                in ma_abs (ma_div (ma_sub xs median) mad))
             else ma_abs (ma_div (ma_sub xs (ma_mean xs)) (ma_std xs)))"
  have len: "length scores = length xs" by (simp add: scores_def Let_def)
  with assms have "scores \<noteq> []" by auto
  from ma_argmax_bound[OF this] obtain i where "ma_argmax scores = Inr i" "i < length scores"
    by blast
  with len show ?thesis
    unfolding calculate_test_statistic_def scores_def[symmetric] by (simp add: Let_def)
qed

lemma calculate_test_statistic_empty [simp]:
  "calculate_test_statistic [] hybrid = Inl ValueError"
  by (simp add: calculate_test_statistic_def Let_def ma_sub_def ma_div_def ma_abs_def)

lemma calculate_critical_value_ok:
  "size_n \<noteq> 0 \<Longrightarrow> \<exists>c. calculate_critical_value t_ppf size_n alpha = Inr c"
  by (simp add: calculate_critical_value_def Let_def split: option.splits)

lemma calculate_critical_value_zero [simp]:
  "calculate_critical_value t_ppf 0 alpha = Inl ZeroDivisionError"
  by (simp add: calculate_critical_value_def)

lemma esd_step_ok:
  assumes "esd_ts st \<noteq> []" "curr_i < length (esd_ts st)"
  shows "\<exists>st'. esd_step t_ppf alpha hybrid curr_i st = Inr st' \<and>
              length (esd_ts st') = length (esd_ts st)"
proof -
  from calculate_test_statistic_ok[OF assms(1)] obtain i v where
    ts: "calculate_test_statistic (esd_ts st) hybrid = Inr (i, v)" by blast
  from assms(2) have "int (length (esd_ts st)) - int curr_i \<noteq> 0" by simp
  from calculate_critical_value_ok[OF this] obtain c where
    cv: "calculate_critical_value t_ppf (int (length (esd_ts st)) - int curr_i) alpha = Inr c"
    by blast
  show ?thesis by (simp add: esd_step_def ts cv)
qed

lemma esd_step_zero_division:
  assumes "esd_ts st \<noteq> []"
  shows "esd_step t_ppf alpha hybrid (length (esd_ts st)) st = Inl ZeroDivisionError"
proof -
  from calculate_test_statistic_ok[OF assms(1)] obtain i v where
    ts: "calculate_test_statistic (esd_ts st) hybrid = Inr (i, v)" by blast
  show ?thesis by (simp add: esd_step_def ts)
qed

lemma esd_step_length:
  "esd_step t_ppf alpha hybrid curr_i st = Inr st' \<Longrightarrow> length (esd_ts st') = length (esd_ts st)"
  by (auto simp: esd_step_def split: sum.splits prod.splits)

lemma esd_loop_append:
  "esd_loop t_ppf alpha hybrid (xs @ ys) st =
     (case esd_loop t_ppf alpha hybrid xs st of
        Inl e \<Rightarrow> Inl e
      | Inr st' \<Rightarrow> esd_loop t_ppf alpha hybrid ys st')"
  by (induction xs arbitrary: st) (auto split: sum.splits)

lemma esd_loop_length:
  "esd_loop t_ppf alpha hybrid cs st = Inr st' \<Longrightarrow> length (esd_ts st') = length (esd_ts st)"
  by (induction cs arbitrary: st) (auto split: sum.splits dest: esd_step_length)

lemma esd_loop_ok:
  assumes "esd_ts st \<noteq> []" "\<forall>c \<in> set cs. c < length (esd_ts st)"
  shows "\<exists>st'. esd_loop t_ppf alpha hybrid cs st = Inr st'"
  using assms
proof (induction cs arbitrary: st)
  case Nil
  then show ?case by simp
next
  case (Cons c cs)
  from Cons.prems(2) have "c < length (esd_ts st)" by simp
  from esd_step_ok[OF Cons.prems(1) this, of t_ppf alpha hybrid] obtain st1 where
    s: "esd_step t_ppf alpha hybrid c st = Inr st1" and l: "length (esd_ts st1) = length (esd_ts st)"
    by blast
  from l Cons.prems have "esd_ts st1 \<noteq> []" "\<forall>c \<in> set cs. c < length (esd_ts st1)" by auto
  from Cons.IH[OF this] s show ?case by simp
qed

lemma esd_outlier_mask_ok:
  assumes "col \<noteq> []" "max_anomalies \<le> length col"
  shows "\<exists>mask. esd_outlier_mask t_ppf col max_anomalies alpha hybrid = Inr mask \<and> length mask = length col"
proof -
  have "\<exists>st'. esd_loop t_ppf alpha hybrid [0..<max_anomalies] (esd_init col) = Inr st'"
    using assms by (intro esd_loop_ok) (auto simp: esd_init_def)
  then obtain st' where l: "esd_loop t_ppf alpha hybrid [0..<max_anomalies] (esd_init col) = Inr st'" by blast
  have "length (esd_ts st') = length col"
    using esd_loop_length[OF l] by (simp add: esd_init_def)
  moreover have "length (fold (\<lambda>i outlier_mask. outlier_mask[i := Some True]) is m) = length m" for "is" and m :: "bool option list"
    by (induction "is" arbitrary: m) auto
  ultimately show ?thesis by (simp add: esd_outlier_mask_def l esd_mask_of_def)
qed

lemma esd_outlier_mask_zero_division:
  assumes "col \<noteq> []" "max_anomalies > length col"
  shows "esd_outlier_mask t_ppf col max_anomalies alpha hybrid = Inl ZeroDivisionError"
proof -
  let ?n = "length col"
  have split: "[0..<max_anomalies] = [0..<?n] @ ?n # [Suc ?n..<max_anomalies]"
    using assms(2) by (metis le_add2 less_imp_le_nat upt_add_eq_append upt_conv_Cons plus_nat.add_0 le0 le_add_diff_inverse)
  have "\<exists>st'. esd_loop t_ppf alpha hybrid [0..<?n] (esd_init col) = Inr st'"
    using assms by (intro esd_loop_ok) (auto simp: esd_init_def)
  then obtain st' where l: "esd_loop t_ppf alpha hybrid [0..<?n] (esd_init col) = Inr st'" by blast
  have len: "length (esd_ts st') = ?n"
    using esd_loop_length[OF l] by (simp add: esd_init_def)
  with assms(1) have "esd_ts st' \<noteq> []" by auto
  from esd_step_zero_division[OF this] len
  have "esd_step t_ppf alpha hybrid ?n st' = Inl ZeroDivisionError" by simp
  then show ?thesis
    by (simp add: esd_outlier_mask_def split esd_loop_append l)
qed

lemma esd_columns_ok:
  assumes "\<forall>c \<in> set cs. \<exists>mask. esd_outlier_mask t_ppf (col_values df c) max_anomalies alpha hybrid = Inr mask"
  shows "\<exists>masks. esd_columns t_ppf df max_anomalies alpha hybrid cs m = Inr masks"
  using assms by (induction cs arbitrary: m) auto

lemma esd_columns_first_fails:
  assumes "cs \<noteq> []" "esd_outlier_mask t_ppf (col_values df (hd cs)) max_anomalies alpha hybrid = Inl e"
  shows "esd_columns t_ppf df max_anomalies alpha hybrid cs m = Inl e"
  using assms by (cases cs) auto


lemmas ma_defs = ma_count_def ma_sum_def ma_mean_def ma_sub_def ma_div_def ma_abs_def ma_square_def
  ma_var_def ma_std_def ma_argmax_def ma_less_def

lemmas esd_eval_defs = detect_outlier_generalized_esd_def numeric_cols_def empty_masks_def
  col_values_def set_column_def esd_outlier_mask_def esd_init_def esd_step_def
  calculate_test_statistic_def calculate_critical_value_def esd_mask_of_def anomalous_indices_def
  Let_def

lemma two_rows_wf: "wf_df two_rows"
  by (simp add: wf_df_def two_rows_def)


text \<open>
  On two rows with \<open>max_anomalies = 1 = n / 2\<close> the detector returns a mask, whatever the
  quantile function is. (At the only point where it is consulted, zero degrees of freedom,
  scipy's quantile is NaN.)
\<close>

lemma esd_two_rows_any_quantile:
  "detect_outlier_generalized_esd t_ppf two_rows 1 (1 / 20) False =
     Inr \<lparr>m_index = [0, 1], m_columns = [(''x'', [None, Some False])]\<rparr>"
  by (simp add: esd_eval_defs ma_defs two_rows_def split: option.splits)


text \<open>
  C3 fails for the Generalized ESD detector: the mask it returns keeps the mask of the
  working array, so the cell of a position that was examined as a candidate and not
  confirmed is null, not a boolean. On the column \<open>[1, 2, 3]\<close> with \<open>max_anomalies = 1\<close>
  the first row is the candidate, and its cell is null for every quantile function.
\<close>

theorem esd_candidate_cell_is_null:
  "detect_outlier_generalized_esd t_ppf three_rows 1 (1 / 20) False =
     Inr \<lparr>m_index = [0, 1, 2], m_columns = [(''x'', [None, Some False, Some False])]\<rparr>"
  by (simp add: esd_eval_defs ma_defs three_rows_def split: option.splits)

subsection \<open>Generalized ESD: a single spike\<close>

lemma sqrt_9 [simp]: "sqrt 9 = 3"
  by (rule real_sqrt_unique) simp_all

lemma spike_statistic:
  "calculate_test_statistic (map Some spike) False = Inr (9, Some 3)"
  by (simp add: calculate_test_statistic_def ma_defs spike_def)

lemma critical_10_below_3:
  "\<exists>c. calculate_critical_value (\<lambda>p d. Some t) 10 alpha = Inr (Fin c) \<and> c < 3"
proof -
  have "0 \<le> t\<^sup>2" by simp
  then have pos: "0 < 80 + 10 * t\<^sup>2" by linarith
  have "(3 * t)\<^sup>2 = 9 * t\<^sup>2" by (simp add: power_mult_distrib)
  with \<open>0 \<le> t\<^sup>2\<close> have "(3 * t)\<^sup>2 < 80 + 10 * t\<^sup>2" by linarith
  then have "3 * t < sqrt (80 + 10 * t\<^sup>2)" by (rule real_less_rsqrt)
  then have "9 * t < 3 * sqrt (80 + 10 * t\<^sup>2)" by simp
  moreover have "0 < sqrt (80 + 10 * t\<^sup>2)" using pos by simp
  ultimately have "9 * t / sqrt (80 + 10 * t\<^sup>2) < 3"
    by (simp add: pos_divide_less_eq)
  with pos show ?thesis
    by (simp add: calculate_critical_value_def Let_def)
qed

lemma esd_step_masked_statistic:
  assumes "calculate_test_statistic (esd_ts st) hybrid = Inr (i, None)"
      and "curr_i < length (esd_ts st)"
  shows "esd_step t_ppf alpha hybrid curr_i st =
           Inr \<lparr>esd_ts = (esd_ts st)[i := None], test_statistics = test_statistics st @ [i],
                num_outliers = num_outliers st\<rparr>"
proof -
  from assms(2) have "int (length (esd_ts st)) - int curr_i \<noteq> 0" by simp
  from calculate_critical_value_ok[OF this] obtain c where
    "calculate_critical_value t_ppf (int (length (esd_ts st)) - int curr_i) alpha = Inr c" by blast
  with assms(1) show ?thesis by (simp add: esd_step_def)
qed

lemma spike_step_0:
  "esd_step (\<lambda>p d. Some t) alpha False 0 (esd_init spike) =
     Inr \<lparr>esd_ts = [Some 0, Some 0, Some 0, Some 0, Some 0, Some 0, Some 0, Some 0, Some 0, None],
          test_statistics = [9], num_outliers = 0\<rparr>"
proof -
  have ts: "calculate_test_statistic (esd_ts (esd_init spike)) False = Inr (9, Some 3)"
    using spike_statistic by (simp add: esd_init_def)
  obtain c where "calculate_critical_value (\<lambda>p d. Some t) 10 alpha = Inr (Fin c)"
    using critical_10_below_3 by blast
  then have cv: "calculate_critical_value (\<lambda>p d. Some t) (int (length (esd_ts (esd_init spike))) - int 0) alpha = Inr (Fin c)"
    by (simp add: esd_init_def spike_def)
  show ?thesis unfolding esd_step_def ts cv by (simp add: esd_init_def spike_def)
qed

lemma spike_step_1:
  "esd_step t_ppf alpha False (Suc 0)
      \<lparr>esd_ts = [Some 0, Some 0, Some 0, Some 0, Some 0, Some 0, Some 0, Some 0, Some 0, None],
       test_statistics = [9], num_outliers = 0\<rparr> =
     Inr \<lparr>esd_ts = [None, Some 0, Some 0, Some 0, Some 0, Some 0, Some 0, Some 0, Some 0, None],
          test_statistics = [9, 0], num_outliers = 0\<rparr>"
  by (subst esd_step_masked_statistic[where i = 0])
     (simp_all add: calculate_test_statistic_def ma_defs)

lemma spike_step_2:
  "esd_step t_ppf alpha False 2
     \<lparr>esd_ts = [None, Some 0, Some 0, Some 0, Some 0, Some 0, Some 0, Some 0, Some 0, None],
          test_statistics = [9, 0], num_outliers = 0\<rparr> =
     Inr \<lparr>esd_ts = [None, Some 0, Some 0, Some 0, Some 0, Some 0, Some 0, Some 0, Some 0, None],
          test_statistics = [9, 0, 0], num_outliers = 0\<rparr>"
  by (subst esd_step_masked_statistic[where i = 0])
     (simp_all add: calculate_test_statistic_def ma_defs)

lemma upt_3: "[0..<3] = [0, 1, 2]"
  by (simp add: upt_rec)

text \<open>
  C2 fails when the test passes at iteration 0 only: \<open>num_outliers\<close> is then 0, which the
  code also takes for "the test never passed". On nine zeros and one 10 with
  \<open>max_anomalies = 3\<close> the candidate of iteration 0 is the 10 with statistic 3, which exceeds
  the critical value for every finite value \<open>t\<close> of the quantile; the later iterations see
  a zero deviation and fail; and the returned mask flags no row.
\<close>

theorem esd_single_spike_not_flagged:
  "calculate_test_statistic (map Some spike) False = Inr (9, Some 3) \<and>
   (\<exists>c. calculate_critical_value (\<lambda>p d. Some t) (int (length spike)) (1 / 20) = Inr c \<and>
        exceeds (Some 3) c) \<and>
   detect_outlier_generalized_esd (\<lambda>p d. Some t) spike_example 3 (1 / 20) False =
     Inr \<lparr>m_index = [0, 1, 2, 3, 4, 5, 6, 7, 8, 9],
          m_columns = [(''x'', [None, Some False, Some False, Some False, Some False, Some False,
                               Some False, Some False, Some False, None])]\<rparr>"
proof (intro conjI)
  show "calculate_test_statistic (map Some spike) False = Inr (9, Some 3)"
    by (rule spike_statistic)
  obtain c where c: "calculate_critical_value (\<lambda>p d. Some t) 10 (1 / 20) = Inr (Fin c)" "c < 3"
    using critical_10_below_3 by blast
  then show "\<exists>c. calculate_critical_value (\<lambda>p d. Some t) (int (length spike)) (1 / 20) = Inr c \<and>
        exceeds (Some 3) c"
    by (auto simp: spike_def)
  have "esd_outlier_mask (\<lambda>p d. Some t) spike 3 (1 / 20) False =
          Inr [None, Some False, Some False, Some False, Some False, Some False,
                               Some False, Some False, Some False, None]"
    by (simp add: esd_outlier_mask_def upt_3 spike_step_0 spike_step_1 spike_step_2
        esd_mask_of_def anomalous_indices_def)
  then show "detect_outlier_generalized_esd (\<lambda>p d. Some t) spike_example 3 (1 / 20) False =
     Inr \<lparr>m_index = [0, 1, 2, 3, 4, 5, 6, 7, 8, 9],
          m_columns = [(''x'', [None, Some False, Some False, Some False, Some False, Some False,
                               Some False, Some False, Some False, None])]\<rparr>"
    by (simp add: detect_outlier_generalized_esd_def numeric_cols_def empty_masks_def
        col_values_def set_column_def spike_example_def)
qed

subsection \<open>Summary percentages\<close>

lemma esd_step_at_zero:
  assumes "calculate_test_statistic (esd_ts st) hybrid = Inr (i, v)"
      and "esd_ts st \<noteq> []" "num_outliers st = 0"
  shows "esd_step t_ppf alpha hybrid 0 st =
           Inr \<lparr>esd_ts = (esd_ts st)[i := None], test_statistics = test_statistics st @ [i],
                num_outliers = 0\<rparr>"
proof -
  from assms(2) have "int (length (esd_ts st)) - int 0 \<noteq> 0" by simp
  from calculate_critical_value_ok[OF this] obtain c where
    "calculate_critical_value t_ppf (int (length (esd_ts st)) - int 0) alpha = Inr c" by blast
  with assms(1,3) show ?thesis by (simp add: esd_step_def)
qed

lemma two_spikes_statistic_0:
  "calculate_test_statistic (map Some two_spikes) False = Inr (10, Some (90 / sqrt (9000 / 11)))"
  by (simp add: calculate_test_statistic_def ma_defs two_spikes_def divide_less_cancel)


lemma two_spikes_step_0:
  "esd_step t_ppf alpha False 0 (esd_init two_spikes) =
     Inr \<lparr>esd_ts = [Some 0, Some 0, Some 0, Some 0, Some 0, Some 0, Some 0, Some 0, Some 0,
                    Some 10, None],
          test_statistics = [10], num_outliers = 0\<rparr>"
proof -
  have "calculate_test_statistic (esd_ts (esd_init two_spikes)) False
        = Inr (10, Some (90 / sqrt (9000 / 11)))"
    using two_spikes_statistic_0 by (simp add: esd_init_def)
  from esd_step_at_zero[OF this, of t_ppf alpha] show ?thesis
    by (simp add: esd_init_def two_spikes_def)
qed

lemma two_spikes_statistic_1:
  "calculate_test_statistic
     [Some 0, Some 0, Some 0, Some 0, Some 0, Some 0, Some 0, Some 0, Some 0, Some 10, None] False
   = Inr (9, Some 3)"
  by (simp add: calculate_test_statistic_def ma_defs)

lemma two_spikes_step_1:
  "esd_step (\<lambda>p d. Some t) alpha False (Suc 0)
     \<lparr>esd_ts = [Some 0, Some 0, Some 0, Some 0, Some 0, Some 0, Some 0, Some 0, Some 0,
               Some 10, None],
      test_statistics = [10], num_outliers = 0\<rparr> =
     Inr \<lparr>esd_ts = [Some 0, Some 0, Some 0, Some 0, Some 0, Some 0, Some 0, Some 0, Some 0,
                    None, None],
          test_statistics = [10, 9], num_outliers = Suc 0\<rparr>"
proof -
  obtain c where c: "calculate_critical_value (\<lambda>p d. Some t) 10 alpha = Inr (Fin c)" "c < 3"
    using critical_10_below_3 by blast
  show ?thesis by (simp add: esd_step_def two_spikes_statistic_1 c)
qed

lemma two_spikes_step_2:
  "esd_step t_ppf alpha False 2
     \<lparr>esd_ts = [Some 0, Some 0, Some 0, Some 0, Some 0, Some 0, Some 0, Some 0, Some 0,
               None, None],
      test_statistics = [10, 9], num_outliers = Suc 0\<rparr> =
     Inr \<lparr>esd_ts = [None, Some 0, Some 0, Some 0, Some 0, Some 0, Some 0, Some 0, Some 0,
                    None, None],
          test_statistics = [10, 9, 0], num_outliers = Suc 0\<rparr>"
  by (subst esd_step_masked_statistic[where i = 0])
     (simp_all add: calculate_test_statistic_def ma_defs)

lemma two_spikes_esd_mask:
  "detect_outlier_generalized_esd (\<lambda>p d. Some t) two_spikes_example 3 (1 / 20) False =
     Inr \<lparr>m_index = [0, 1, 2, 3, 4, 5, 6, 7, 8, 9, 10],
          m_columns = [(''x'', [None, Some False, Some False, Some False, Some False, Some False,
                               Some False, Some False, Some False, Some True, Some True])]\<rparr>"
proof -
  have "esd_outlier_mask (\<lambda>p d. Some t) two_spikes 3 (1 / 20) False =
          Inr [None, Some False, Some False, Some False, Some False, Some False,
               Some False, Some False, Some False, Some True, Some True]"
    by (simp add: esd_outlier_mask_def upt_3 two_spikes_step_0 two_spikes_step_1 two_spikes_step_2
        esd_mask_of_def anomalous_indices_def)
  then show ?thesis
    by (simp add: detect_outlier_generalized_esd_def numeric_cols_def empty_masks_def
        col_values_def set_column_def two_spikes_example_def)
qed

lemma two_spikes_iqr_mask:
  "detect_outlier_iqr two_spikes_example (3 / 2) =
     Inr \<lparr>m_index = [0, 1, 2, 3, 4, 5, 6, 7, 8, 9, 10],
          m_columns = [(''x'', [Some False, Some False, Some False, Some False, Some False,
                               Some False, Some False, Some False, Some False, Some True, Some True])]\<rparr>"
  by (simp add: detect_outlier_iqr_def two_spikes_example_def two_spikes_def numeric_cols_def
      empty_masks_def col_values_def set_column_def iqr_outlier_mask_def np_quantile_def Let_def)

lemma two_spikes_iforest_mask:
  "detect_outlier_isolation_forest all_inliers two_spikes_example (KStr ''auto'') Map.empty =
     Inr \<lparr>m_index = [0, 1, 2, 3, 4, 5, 6, 7, 8, 9, 10],
          m_columns = [(''x'', [Some False, Some False, Some False, Some False, Some False,
                               Some False, Some False, Some False, Some False, Some False, Some False])]\<rparr>"
  by (simp add: detect_outlier_isolation_forest_def two_spikes_example_def two_spikes_def
      numeric_cols_def empty_masks_def col_values_def set_column_def standard_scaler_def
      all_inliers_def labels_to_mask_def Let_def)

text \<open>
  C4 fails for the Generalized ESD entries of the summary: the percentage is the mean of
  the mask column, which skips its null cells. On nine zeros, a 10 and a 100 with
  \<open>max_anomalies = 3\<close> the detector flags two of the eleven rows and leaves one null cell,
  and the summary reports 2 of 10, that is 20 percent, not \<open>100 * 2 / 11\<close>. The recorded
  row keys are those of the two flagged rows.
\<close>

theorem summary_esd_percentage_skips_null_cells:
  "\<exists>rows. summary (\<lambda>p d. Some t) all_inliers two_spikes_example (3 / 2) 3 (KStr ''auto'')
             \<lparr>cfg_max_anomalies = 3, cfg_alpha = 1 / 20, cfg_hybrid = False\<rparr> = Inr rows \<and>
          detect_outlier_generalized_esd (\<lambda>p d. Some t) two_spikes_example 3 (1 / 20) False =
            Inr \<lparr>m_index = [0, 1, 2, 3, 4, 5, 6, 7, 8, 9, 10],
                 m_columns = [(''x'', [None, Some False, Some False, Some False, Some False,
                     Some False, Some False, Some False, Some False, Some True, Some True])]\<rparr> \<and>
          map_of rows (''x'', GEN_ESD) = Some \<lparr>percentage = Some 20, index_keys = [9, 10]\<rparr> \<and>
          100 * real 2 / real (length (df_index two_spikes_example)) \<noteq> 20"
proof -
  have cols: "numeric_cols two_spikes_example = [''x'']" "length (df_index two_spikes_example) = 11"
    by (simp_all add: two_spikes_example_def numeric_cols_def)
  show ?thesis
    by (simp add: summary_def two_spikes_esd_mask two_spikes_iqr_mask two_spikes_iforest_mask
        cols summary_rows_def percentage_outliers_def flagged_index_def mask_col_def
        column_mean_def List.map_filter_simps Let_def)
qed

subsection \<open>Isolation forest detectors: validation, keyword arguments, outlier count\<close>

lemma iforest_columns_no_assertion:
  "iforest_columns fit_predict df outlier_fraction kwargs cols m \<noteq> Inl AssertionError"
proof (induction cols arbitrary: kwargs m)
  case Nil
  then show ?case by simp
next
  case (Cons c cols)
  show ?case
    using Cons.IH by (auto simp: standard_scaler_def Let_def split: sum.splits option.splits if_splits)
qed



lemma overwritten_kwargs_equal:
  assumes "\<forall>k. k \<noteq> ''contamination'' \<and> k \<noteq> ''random_state'' \<longrightarrow> kwargs1 k = kwargs2 k"
  shows "kwargs1(''contamination'' \<mapsto> a, ''random_state'' \<mapsto> b)
         = kwargs2(''contamination'' \<mapsto> a, ''random_state'' \<mapsto> b)"
  using assms by (intro ext) simp

lemma iforest_columns_kwargs:
  assumes "\<forall>k. k \<noteq> ''contamination'' \<and> k \<noteq> ''random_state'' \<longrightarrow> kwargs1 k = kwargs2 k"
  shows "iforest_columns fit_predict df outlier_fraction kwargs1 cols m
         = iforest_columns fit_predict df outlier_fraction kwargs2 cols m"
proof (cases cols)
  case Nil
  then show ?thesis by simp
next
  case (Cons c cs)
  show ?thesis
    unfolding Cons iforest_columns.simps Let_def
      overwritten_kwargs_equal[OF assms, of outlier_fraction "KNum 42"] ..
qed

lemma iforest_columns_overwritten:
  "iforest_columns fit_predict df outlier_fraction kwargs cols m
   = iforest_columns
       (\<lambda>kw. fit_predict (kw(''contamination'' \<mapsto> outlier_fraction, ''random_state'' \<mapsto> KNum 42)))
       df outlier_fraction kwargs cols m"
proof (induction cols arbitrary: kwargs m)
  case Nil
  then show ?case by simp
next
  case (Cons c cols)
  define g where
    "g = (\<lambda>kw. fit_predict (kw(''contamination'' \<mapsto> outlier_fraction, ''random_state'' \<mapsto> KNum 42)))"
  define kw2 where
    "kw2 = kwargs(''contamination'' \<mapsto> outlier_fraction, ''random_state'' \<mapsto> KNum 42)"
  have idem: "kw2(''contamination'' \<mapsto> outlier_fraction, ''random_state'' \<mapsto> KNum 42) = kw2"
    by (rule ext) (simp add: kw2_def)
  have gk: "g kw2 = fit_predict kw2"
    unfolding g_def idem ..
  have IH: "iforest_columns fit_predict df outlier_fraction kw2 cols m'
            = iforest_columns g df outlier_fraction kw2 cols m'" for m'
    using Cons.IH[of kw2 m'] unfolding g_def .
  have "iforest_columns fit_predict df outlier_fraction kwargs (c # cols) m
        = iforest_columns g df outlier_fraction kwargs (c # cols) m"
    unfolding iforest_columns.simps Let_def kw2_def[symmetric] gk IH ..
  then show ?case unfolding g_def .
qed

text \<open>
  C8: two calls of the univariate isolation forest detector whose keyword arguments agree
  except at \<open>contamination\<close> and \<open>random_state\<close> return the same result, and the result is
  the one of a model that always sees \<open>contamination = outlier_fraction\<close> and
  \<open>random_state = 42\<close>: both entries are overwritten before the model is constructed.
\<close>

theorem iforest_ignores_caller_contamination_and_seed:
  assumes "\<forall>k. k \<noteq> ''contamination'' \<and> k \<noteq> ''random_state'' \<longrightarrow> kwargs1 k = kwargs2 k"
  shows "detect_outlier_isolation_forest fit_predict df outlier_fraction kwargs1
         = detect_outlier_isolation_forest fit_predict df outlier_fraction kwargs2 \<and>
         detect_outlier_isolation_forest fit_predict df outlier_fraction kwargs1
         = detect_outlier_isolation_forest
             (\<lambda>kw. fit_predict (kw(''contamination'' \<mapsto> outlier_fraction, ''random_state'' \<mapsto> KNum 42)))
             df outlier_fraction kwargs1"
proof
  show "detect_outlier_isolation_forest fit_predict df outlier_fraction kwargs1
         = detect_outlier_isolation_forest fit_predict df outlier_fraction kwargs2"
    by (cases outlier_fraction)
       (simp_all add: detect_outlier_isolation_forest_def iforest_columns_kwargs[OF assms])
  show "detect_outlier_isolation_forest fit_predict df outlier_fraction kwargs1
         = detect_outlier_isolation_forest
             (\<lambda>kw. fit_predict (kw(''contamination'' \<mapsto> outlier_fraction, ''random_state'' \<mapsto> KNum 42)))
             df outlier_fraction kwargs1"
    by (cases outlier_fraction)
       (simp_all add: detect_outlier_isolation_forest_def iforest_columns_overwritten[symmetric])
qed

theorem iforest_ignores_caller_contamination_and_seed_witness:
  "caller_kwargs1 |` (- {''contamination'', ''random_state''})
     = caller_kwargs2 |` (- {''contamination'', ''random_state''}) \<and>
   caller_kwargs1 ''contamination'' \<noteq> caller_kwargs2 ''contamination'' \<and>
   caller_kwargs1 ''random_state'' \<noteq> caller_kwargs2 ''random_state'' \<and>
   detect_outlier_isolation_forest seed_probe_forest spike_example (KNum (1 / 10)) caller_kwargs1
     = detect_outlier_isolation_forest seed_probe_forest spike_example (KNum (1 / 10)) caller_kwargs2"
proof -
  have h: "\<forall>k. k \<noteq> ''contamination'' \<and> k \<noteq> ''random_state'' \<longrightarrow> caller_kwargs1 k = caller_kwargs2 k"
    by (simp add: caller_kwargs1_def caller_kwargs2_def)
  then have r: "caller_kwargs1 |` (- {''contamination'', ''random_state''})
     = caller_kwargs2 |` (- {''contamination'', ''random_state''})"
    by (intro ext) (simp add: restrict_map_def)
  have d: "caller_kwargs1 ''contamination'' \<noteq> caller_kwargs2 ''contamination''"
          "caller_kwargs1 ''random_state'' \<noteq> caller_kwargs2 ''random_state''"
    by (simp_all add: caller_kwargs1_def caller_kwargs2_def)
  from iforest_ignores_caller_contamination_and_seed[OF h, of seed_probe_forest spike_example "KNum (1 / 10)"]
    r d show ?thesis by blast
qed

lemma spike_iforest_mask:
  "detect_outlier_isolation_forest seed_probe_forest spike_example (KNum (1 / 10)) caller_kwargs1
   = Inr \<lparr>m_index = [0, 1, 2, 3, 4, 5, 6, 7, 8, 9],
          m_columns = [(''x'', [Some False, Some False, Some False, Some False, Some False,
                               Some False, Some False, Some False, Some False, Some True])]\<rparr>"
  by (simp add: detect_outlier_isolation_forest_def spike_example_def spike_def numeric_cols_def
      empty_masks_def col_values_def set_column_def standard_scaler_def np_std_def np_mean_def
      seed_probe_forest_def labels_to_mask_def caller_kwargs1_def Let_def)

text \<open>
  C9: the multivariate isolation forest detector returns a mask only if the labels of the
  fitted model contain \<open>-1\<close>; when the model labels every row (one label per row) and no
  label is \<open>-1\<close>, the call fails with \<open>KeyError\<close>, raised by the lookup of the outlier
  count, and returns no mask.
\<close>

theorem multivariable_iforest_needs_an_outlier:
  "(detect_outlier_multivariable_isolation_forest iso_forest render fmt df contaminacion
        n_estimators plot random_state = Inr masks \<longrightarrow>
      (\<exists>outliers. iso_forest n_estimators contaminacion random_state (numeric_data df) = Some outliers
          \<and> - 1 \<in> set outliers)) \<and>
   (iso_forest n_estimators contaminacion random_state (numeric_data df) = Some outliers \<and>
    length outliers = length (df_index df) \<and> - 1 \<notin> set outliers \<longrightarrow>
      detect_outlier_multivariable_isolation_forest iso_forest render fmt df contaminacion
        n_estimators plot random_state = Inl KeyError)"
  by (auto simp: detect_outlier_multivariable_isolation_forest_def value_counts_at_def
      split: option.splits if_splits sum.splits)

theorem multivariable_iforest_needs_an_outlier_witness:
  "detect_outlier_multivariable_isolation_forest labels_with_outlier no_render fmt_percent
      three_rows (1 / 100) 500 True 42
     = Inr \<lparr>m_index = [0, 1, 2],
            m_columns = [(''MULTIVARIABLE_ISO_FOREST_0.01'', [Some False, Some False, Some True])]\<rparr> \<and>
   (\<exists>outliers. labels_with_outlier 500 (1 / 100) 42 (numeric_data three_rows) = Some outliers
       \<and> - 1 \<in> set outliers) \<and>
   labels_without_outlier 500 (1 / 100) 42 (numeric_data three_rows) = Some [1, 1, 1] \<and>
   length [1, 1, 1 :: int] = length (df_index three_rows) \<and> - 1 \<notin> set [1, 1, 1 :: int] \<and>
   detect_outlier_multivariable_isolation_forest labels_without_outlier no_render fmt_percent
      three_rows (1 / 100) 500 True 42 = Inl KeyError"
proof -
  have a: "detect_outlier_multivariable_isolation_forest labels_with_outlier no_render fmt_percent
      three_rows (1 / 100) 500 True 42
     = Inr \<lparr>m_index = [0, 1, 2],
            m_columns = [(''MULTIVARIABLE_ISO_FOREST_0.01'', [Some False, Some False, Some True])]\<rparr>"
    by (simp add: detect_outlier_multivariable_isolation_forest_def labels_with_outlier_def
        no_render_def fmt_percent_def three_rows_def value_counts_at_def)
  have b: "labels_without_outlier 500 (1 / 100) 42 (numeric_data three_rows) = Some [1, 1, 1] \<and>
     length [1, 1, 1 :: int] = length (df_index three_rows) \<and> - 1 \<notin> set [1, 1, 1 :: int]"
    by (simp add: labels_without_outlier_def three_rows_def)
  from multivariable_iforest_needs_an_outlier[where iso_forest = labels_with_outlier
         and render = no_render and fmt = fmt_percent and df = three_rows
         and contaminacion = "1 / 100" and n_estimators = 500 and plot = True
         and random_state = 42] a
  have c: "\<exists>outliers. labels_with_outlier 500 (1 / 100) 42 (numeric_data three_rows) = Some outliers
       \<and> - 1 \<in> set outliers" by blast
  from multivariable_iforest_needs_an_outlier[where iso_forest = labels_without_outlier
         and render = no_render and fmt = fmt_percent and df = three_rows
         and contaminacion = "1 / 100" and n_estimators = 500 and plot = True
         and random_state = 42 and outliers = "[1, 1, 1]"] b
  have d: "detect_outlier_multivariable_isolation_forest labels_without_outlier no_render fmt_percent
      three_rows (1 / 100) 500 True 42 = Inl KeyError" by blast
  from a b c d show ?thesis by blast
qed

subsection \<open>Generalized ESD: the test statistic\<close>

paragraph \<open>The index of the maximum\<close>

lemma ma_less_trans_max:
  "\<not> ma_less b x \<Longrightarrow> ma_less b s \<Longrightarrow> \<not> ma_less s x"
  by (auto simp: ma_less_def split: option.splits)

lemma argmax_from_max:
  assumes "i = length pre" "bi < i" "best = pre ! bi"
      and "\<forall>j < i. \<not> ma_less best (pre ! j)"
  shows "argmax_from ss i bi best < length (pre @ ss) \<and>
         (\<forall>j < length (pre @ ss).
            \<not> ma_less ((pre @ ss) ! argmax_from ss i bi best) ((pre @ ss) ! j))"
  using assms
proof (induction ss arbitrary: pre i bi best)
  case Nil
  then show ?case by simp
next
  case (Cons s ss)
  let ?pre = "pre @ [s]"
  show ?case
  proof (cases "ma_less best s")
    case True
    have 1: "Suc i = length ?pre" "i < Suc i" "s = ?pre ! i" using Cons.prems by simp_all
    have 2: "\<forall>j < Suc i. \<not> ma_less s (?pre ! j)"
    proof (intro allI impI)
      fix j assume "j < Suc i"
      show "\<not> ma_less s (?pre ! j)"
      proof (cases "j < i")
        case True
        with Cons.prems have "\<not> ma_less best (pre ! j)" by simp
        from ma_less_trans_max[OF this \<open>ma_less best s\<close>] True Cons.prems(1)
        show ?thesis by (simp add: nth_append)
      next
        case False
        with \<open>j < Suc i\<close> have "j = i" by simp
        then show ?thesis using Cons.prems(1) by (simp add: ma_less_def split: option.splits)
      qed
    qed
    from Cons.IH[OF 1 2] True show ?thesis by simp
  next
    case False
    have 1: "Suc i = length ?pre" "bi < Suc i" "best = ?pre ! bi"
      using Cons.prems by (simp_all add: nth_append)
    have 2: "\<forall>j < Suc i. \<not> ma_less best (?pre ! j)"
      using Cons.prems False by (auto simp: nth_append less_Suc_eq)
    from Cons.IH[OF 1 2] False show ?thesis by simp
  qed
qed

lemma ma_argmax_max:
  assumes "ma_argmax scores = Inr i"
  shows "i < length scores \<and> (\<forall>j < length scores. \<not> ma_less (scores ! i) (scores ! j))"
proof (cases scores)
  case Nil
  with assms show ?thesis by (simp add: ma_argmax_def)
next
  case (Cons s ss)
  have "\<forall>j < 1. \<not> ma_less s ([s] ! j)" by (simp add: ma_less_def split: option.splits)
  from argmax_from_max[of 1 "[s]" 0 s ss] this
  have "argmax_from ss 1 0 s < length ([s] @ ss) \<and>
         (\<forall>j < length ([s] @ ss). \<not> ma_less (([s] @ ss) ! argmax_from ss 1 0 s) (([s] @ ss) ! j))"
    by simp
  with assms Cons show ?thesis by (simp add: ma_argmax_def)
qed

paragraph \<open>Masked reductions are reductions over the unmasked values\<close>

lemma ma_count_compressed: "ma_count xs = length (ma_compressed xs)"
  by (induction xs) (auto simp: ma_count_def ma_compressed_def List.map_filter_simps split: option.splits)

lemma ma_sum_compressed: "ma_sum xs = sum_list (ma_compressed xs)"
  by (induction xs) (auto simp: ma_sum_def ma_compressed_def List.map_filter_simps split: option.splits)

lemma ma_mean_compressed:
  "ma_mean xs = (if ma_compressed xs = [] then None
                 else Some (sum_list (ma_compressed xs) / real (length (ma_compressed xs))))"
  by (simp add: ma_mean_def ma_count_compressed ma_sum_compressed)

lemma ma_square_sub_compressed:
  "ma_compressed (ma_square (ma_sub xs (Some m))) = map (\<lambda>x. (x - m)\<^sup>2) (ma_compressed xs)"
  by (induction xs)
     (auto simp: ma_square_def ma_sub_def ma_compressed_def List.map_filter_simps power2_eq_square
           split: option.splits)

lemma ma_std_compressed:
  "ma_std xs = (if ma_compressed xs = [] then None else Some (population_std (ma_compressed xs)))"
  by (simp add: ma_std_def ma_var_def ma_mean_compressed ma_sum_compressed ma_count_compressed
      ma_square_sub_compressed population_std_def)

lemma population_std_nonneg: "0 \<le> population_std xs"
  unfolding population_std_def
  by (intro real_sqrt_ge_zero divide_nonneg_nonneg sum_list_nonneg) auto

lemma scores_nth:
  assumes "j < length xs"
  shows "ma_abs (ma_div (ma_sub xs (ma_mean xs)) (ma_std xs)) ! j =
           (case xs ! j of
              None \<Rightarrow> None
            | Some x \<Rightarrow> if population_std (ma_compressed xs) = 0 then None
                        else Some (z_score (ma_compressed xs) x))"
proof (cases "ma_compressed xs = []")
  case True
  then have "xs ! j = None"
    using assms
    by (induction xs arbitrary: j)
       (auto simp: ma_compressed_def List.map_filter_simps nth_Cons' split: option.splits if_splits)
  with assms show ?thesis
    by (simp add: ma_abs_def ma_div_def ma_sub_def)
next
  case False
  then show ?thesis
    using assms population_std_nonneg[of "ma_compressed xs"]
    by (simp add: ma_abs_def ma_div_def ma_sub_def ma_mean_compressed ma_std_compressed z_score_def
        abs_divide split: option.splits)
qed

paragraph \<open>The working array during a run\<close>

lemma masked_at_update:
  "(masked_at col removed)[i := None] = masked_at col (removed @ [i])"
proof (rule nth_equalityI)
  show "length ((masked_at col removed)[i := None]) = length (masked_at col (removed @ [i]))"
    by (simp add: masked_at_def)
next
  fix j assume "j < length ((masked_at col removed)[i := None])"
  then have j: "j < length col" by (simp add: masked_at_def)
  show "(masked_at col removed)[i := None] ! j = masked_at col (removed @ [i]) ! j"
  proof (cases "j = i")
    case True
    with j show ?thesis by (simp add: masked_at_def)
  next
    case False
    with j show ?thesis by (simp add: masked_at_def)
  qed
qed

lemma esd_step_working_array:
  assumes "esd_step t_ppf alpha hybrid curr_i st = Inr st'"
      and "esd_ts st = masked_at col (test_statistics st)"
  shows "esd_ts st' = masked_at col (test_statistics st')"
  using assms
  by (auto simp: esd_step_def masked_at_update split: sum.splits prod.splits)

lemma esd_loop_working_array:
  assumes "esd_loop t_ppf alpha hybrid cs st = Inr st'"
      and "esd_ts st = masked_at col (test_statistics st)"
  shows "esd_ts st' = masked_at col (test_statistics st')"
  using assms
proof (induction cs arbitrary: st)
  case Nil
  then show ?case by simp
next
  case (Cons c cs)
  from Cons.prems(1) obtain st1 where
    s: "esd_step t_ppf alpha hybrid c st = Inr st1" and
    l: "esd_loop t_ppf alpha hybrid cs st1 = Inr st'"
    by (auto split: sum.splits)
  from Cons.IH[OF l esd_step_working_array[OF s Cons.prems(2)]] show ?case .
qed

lemma esd_init_working_array: "esd_ts (esd_init col) = masked_at col (test_statistics (esd_init col))"
  by (rule nth_equalityI) (simp_all add: esd_init_def masked_at_def)

lemma compressed_masked_list:
  "List.map_filter (\<lambda>x. x) (map (\<lambda>j. if j \<in> R then None else Some (col ! j)) js)
   = map (\<lambda>j. col ! j) (filter (\<lambda>j. j \<notin> R) js)"
  by (induction js) (auto simp: List.map_filter_simps)

lemma compressed_masked_at: "ma_compressed (masked_at col removed) = active_values col removed"
  by (simp add: ma_compressed_def masked_at_def active_values_def compressed_masked_list)

lemma active_values_nonempty:
  "active_values col removed \<noteq> [] \<longleftrightarrow> (\<exists>j < length col. j \<notin> set removed)"
  by (auto simp: active_values_def filter_empty_conv)

text \<open>
  C10: in non-hybrid mode, at the start of every iteration \<open>k\<close> of a run the working array
  is the column with the candidates found so far masked, and the statistic computed from
  it is \<open>|x - mean| / std\<close> of the candidate \<open>x\<close>, with the mean and the population
  standard deviation (\<open>ddof = 0\<close>) of the values still active; it is the greatest such
  score among the active values. When no value is active or that deviation is zero the
  statistic is masked.
\<close>

theorem esd_statistic_is_population_z_score:
  assumes run: "esd_loop t_ppf alpha False [0..<k] (esd_init col) = Inr st"
      and stat: "calculate_test_statistic (esd_ts st) False = Inr (i, v)"
  shows "esd_ts st = masked_at col (test_statistics st) \<and>
         (if active_values col (test_statistics st) = [] \<or>
             population_std (active_values col (test_statistics st)) = 0
          then v = None
          else i < length col \<and> i \<notin> set (test_statistics st) \<and>
               v = Some (z_score (active_values col (test_statistics st)) (col ! i)) \<and>
               (\<forall>j < length col. j \<notin> set (test_statistics st) \<longrightarrow>
                  z_score (active_values col (test_statistics st)) (col ! j)
                  \<le> z_score (active_values col (test_statistics st)) (col ! i)))"
proof -
  let ?R = "test_statistics st"
  let ?act = "active_values col ?R"
  let ?scores = "ma_abs (ma_div (ma_sub (esd_ts st) (ma_mean (esd_ts st))) (ma_std (esd_ts st)))"
  have wa: "esd_ts st = masked_at col ?R"
    using esd_loop_working_array[OF run esd_init_working_array] .
  have comp: "ma_compressed (esd_ts st) = ?act"
    by (simp add: wa compressed_masked_at)
  have len: "length ?scores = length col" by (simp add: wa masked_at_def)
  from stat have am: "ma_argmax ?scores = Inr i" and v: "v = ?scores ! i"
    by (auto simp: calculate_test_statistic_def Let_def split: sum.splits)
  from ma_argmax_max[OF am] len have i: "i < length col"
    and mx: "\<forall>j < length col. \<not> ma_less (?scores ! i) (?scores ! j)" by auto
  have sc: "?scores ! j = (if j \<in> set ?R \<or> population_std ?act = 0 then None
                           else Some (z_score ?act (col ! j)))" if "j < length col" for j
  proof -
    from that have l: "j < length (esd_ts st)" by (simp add: wa masked_at_def)
    from that have e: "esd_ts st ! j = (if j \<in> set ?R then None else Some (col ! j))"
      by (simp add: wa masked_at_def)
    show ?thesis unfolding scores_nth[OF l] comp e by simp
  qed
  show ?thesis
  proof (cases "?act = [] \<or> population_std ?act = 0")
    case True
    then have "?scores ! i = None"
    proof
      assume "?act = []"
      then have "i \<in> set ?R" using i active_values_nonempty[of col ?R] by auto
      then show ?thesis using sc[OF i] by simp
    next
      assume "population_std ?act = 0"
      then show ?thesis using sc[OF i] by simp
    qed
    with True v wa show ?thesis by simp
  next
    case False
    then obtain j0 where j0: "j0 < length col" "j0 \<notin> set ?R"
      using active_values_nonempty[of col ?R] by auto
    from False have sd: "population_std ?act \<noteq> 0" by simp
    have "?scores ! j0 = Some (z_score ?act (col ! j0))" using sc[OF j0(1)] j0(2) sd by simp
    with mx j0(1) have nl: "\<not> ma_less (?scores ! i) (Some (z_score ?act (col ! j0)))" by metis
    have iR: "i \<notin> set ?R"
    proof
      assume "i \<in> set ?R"
      then have "?scores ! i = None" using sc[OF i] by simp
      with nl show False by (simp add: ma_less_def)
    qed
    then have vi: "?scores ! i = Some (z_score ?act (col ! i))" using sc[OF i] sd by simp
    have "z_score ?act (col ! j) \<le> z_score ?act (col ! i)" if "j < length col" "j \<notin> set ?R" for j
    proof -
      have "?scores ! j = Some (z_score ?act (col ! j))" using sc[OF that(1)] that(2) sd by simp
      with mx that(1) vi have "\<not> ma_less (Some (z_score ?act (col ! i))) (Some (z_score ?act (col ! j)))"
        by metis
      then show ?thesis by (simp add: ma_less_def)
    qed
    with False i iR vi v wa show ?thesis by simp
  qed
qed

lemma spike_active: "active_values spike [] = spike"
  by (simp add: active_values_def map_nth)

lemma spike_population_std: "population_std spike = 3"
  by (simp add: population_std_def spike_def)

theorem esd_statistic_is_population_z_score_witness:
  "esd_loop (\<lambda>p d. Some 2) (1 / 20) False [0..<0] (esd_init spike) = Inr (esd_init spike) \<and>
   calculate_test_statistic (esd_ts (esd_init spike)) False = Inr (9, Some 3) \<and>
   active_values spike (test_statistics (esd_init spike)) \<noteq> [] \<and>
   population_std (active_values spike (test_statistics (esd_init spike))) = 3 \<and>
   esd_ts (esd_init spike) = masked_at spike (test_statistics (esd_init spike)) \<and>
   9 < length spike \<and>
   Some 3 = Some (z_score (active_values spike (test_statistics (esd_init spike))) (spike ! 9))"
proof -
  have run: "esd_loop (\<lambda>p d. Some 2) (1 / 20) False [0..<0] (esd_init spike) = Inr (esd_init spike)"
    by simp
  have stat: "calculate_test_statistic (esd_ts (esd_init spike)) False = Inr (9, Some 3)"
    using spike_statistic by (simp add: esd_init_def)
  have act: "active_values spike (test_statistics (esd_init spike)) = spike"
    by (simp add: esd_init_def spike_active)
  have ne: "active_values spike (test_statistics (esd_init spike)) \<noteq> []"
    unfolding act by (simp add: spike_def)
  have sd: "population_std (active_values spike (test_statistics (esd_init spike))) = 3"
    unfolding act by (rule spike_population_std)
  from esd_statistic_is_population_z_score[OF run stat] ne sd
  have "esd_ts (esd_init spike) = masked_at spike (test_statistics (esd_init spike)) \<and>
        9 < length spike \<and>
        Some 3 = Some (z_score (active_values spike (test_statistics (esd_init spike))) (spike ! 9))"
    by simp
  with run stat ne sd show ?thesis by blast
qed

end
